theory Spec2Isabelle
  imports Main
begin

section \<open>JavaScript values and errors\<close>

text \<open>
  A value produced by \<^verbatim>\<open>response.json()\<close>. Numbers are restricted to integers; strings
  are lists of 8-bit characters. A \<^verbatim>\<open>JObj\<close> lists the own properties of the parsed object,
  and reading a property that is not there gives \<^verbatim>\<open>undefined\<close>, written \<open>None\<close>.
\<close>

datatype jsval =
    JNull
  | JBool bool
  | JNum int
  | JStr string
  | JArr "jsval list"
  | JObj "(string \<times> jsval) list"

text \<open>An exception object: \<^verbatim>\<open>new Error(m)\<close> has the name \<^verbatim>\<open>Error\<close> and the message \<open>m\<close>.\<close>

record js_error =
  name :: string
  message :: string

definition Error :: "string \<Rightarrow> js_error" where
  "Error m = \<lparr>name = ''Error'', message = m\<rparr>"

definition TypeError :: "string \<Rightarrow> js_error" where
  "TypeError m = \<lparr>name = ''TypeError'', message = m\<rparr>"

text \<open>What a \<^verbatim>\<open>catch\<close> clause receives: an \<^verbatim>\<open>Error\<close> instance, or any other thrown value.\<close>

datatype thrown = ErrorObject js_error | NonError

text \<open>Truthiness of a value that may be \<^verbatim>\<open>undefined\<close>, as \<^verbatim>\<open>||\<close> tests it.\<close>

fun truthy :: "jsval option \<Rightarrow> bool" where
  "truthy None = False"
| "truthy (Some JNull) = False"
| "truthy (Some (JBool b)) = b"
| "truthy (Some (JNum n)) = (n \<noteq> 0)"
| "truthy (Some (JStr s)) = (s \<noteq> [])"
| "truthy (Some (JArr xs)) = True"
| "truthy (Some (JObj kvs)) = True"

text \<open>\<^verbatim>\<open>a || b\<close> on values that may be \<^verbatim>\<open>undefined\<close>.\<close>

definition js_or :: "jsval option \<Rightarrow> jsval option \<Rightarrow> jsval option" where
  "js_or a b = (if truthy a then a else b)"

text \<open>
  Property access \<^verbatim>\<open>v.k\<close> for the keys \<^verbatim>\<open>error\<close> and \<^verbatim>\<open>message\<close>, which no prototype of a
  parsed value defines: it throws a \<^verbatim>\<open>TypeError\<close> on \<^verbatim>\<open>null\<close>, reads the own property of an
  object, and is \<^verbatim>\<open>undefined\<close> on every other value.
\<close>

fun getprop :: "jsval \<Rightarrow> string \<Rightarrow> js_error + jsval option" where
  "getprop JNull k = Inl (TypeError (''Cannot read properties of null (reading '' @ k @ '')''))"
| "getprop (JObj kvs) k = Inr (map_of kvs k)"
| "getprop v k = Inr None"

text \<open>Decimal digits of a natural number and of an integer, as template literals print them.\<close>

definition digit :: "nat \<Rightarrow> char" where
  "digit d = char_of (48 + d)"

fun show_nat :: "nat \<Rightarrow> string" where
  "show_nat n = (if n < 10 then [digit n] else show_nat (n div 10) @ [digit (n mod 10)])"

declare show_nat.simps [simp del]

definition show_int :: "int \<Rightarrow> string" where
  "show_int i = (if i < 0 then CHR ''-'' # show_nat (nat (- i)) else show_nat (nat i))"

fun join_comma :: "string list \<Rightarrow> string" where
  "join_comma [] = []"
| "join_comma [s] = s"
| "join_comma (s # t # ss) = s @ '','' @ join_comma (t # ss)"

text \<open>
  The string conversion \<^verbatim>\<open>new Error(v)\<close> applies to its argument. An array joins the
  conversions of its elements with commas, \<^verbatim>\<open>null\<close> elements giving the empty string.
\<close>

fun ToString :: "jsval \<Rightarrow> string" where
  "ToString JNull = ''null''"
| "ToString (JBool b) = (if b then ''true'' else ''false'')"
| "ToString (JNum n) = show_int n"
| "ToString (JStr s) = s"
| "ToString (JArr xs) = join_comma (map (\<lambda>x. if x = JNull then [] else ToString x) xs)"
| "ToString (JObj kvs) = ''[object Object]''"

section \<open>The fetch interface\<close>

text \<open>
  The part of a \<^verbatim>\<open>Response\<close> the code reads. \<open>json\<close> is the outcome of
  \<^verbatim>\<open>response.json()\<close>: \<open>Inl\<close> when the promise rejects (the body is not parseable JSON).
\<close>

record response =
  ok :: bool
  status :: nat
  statusText :: string
  json :: "js_error + jsval"

text \<open>
  \<^verbatim>\<open>HeadersInit\<close>, the type of the \<^verbatim>\<open>headers\<close> option: a plain object from names to values,
  a \<^verbatim>\<open>Headers\<close> instance (its entries, names in lower case), or an array of name and value
  pairs.
\<close>

datatype HeadersInit =
    PlainObject "string \<rightharpoonup> string"
  | HeadersInstance "(string \<times> string) list"
  | PairArray "(string \<times> string) list"

text \<open>
  The part of \<^verbatim>\<open>RequestInit\<close> the code sets; \<open>headers\<close> is \<open>None\<close> when the option is
  not given. \<open>signal\<close> is the abort signal attached to the request, given by the number of
  milliseconds after which it fires; \<open>None\<close> when no signal is attached.
\<close>

record RequestInit =
  http_method :: "string option"
  headers :: "HeadersInit option"
  body :: "string option"
  signal :: "nat option"

record ApiRequestOptions = RequestInit +
  timeout :: "nat option"

record fetch_call =
  url :: string
  init :: RequestInit

text \<open>
  What the transport does with a request when nothing aborts it: after \<open>settles_after\<close>
  milliseconds the promise resolves with a response or rejects.
\<close>

datatype fetch_result = Resolved response | Rejected thrown

record fetch_behaviour =
  settles_after :: nat
  outcome :: fetch_result

type_synonym network = "fetch_call \<Rightarrow> fetch_behaviour"

definition AbortError :: js_error where
  "AbortError = \<lparr>name = ''AbortError'', message = ''The user aborted a request.''\<rparr>"

text \<open>
  The platform's \<^verbatim>\<open>fetch(url, init)\<close>: a signal that fires before the transport settles
  rejects the promise with an \<^verbatim>\<open>AbortError\<close>.
\<close>

definition fetch :: "network \<Rightarrow> fetch_call \<Rightarrow> fetch_result" where
  "fetch net c =
     (case signal (init c) of
        None \<Rightarrow> outcome (net c)
      | Some t \<Rightarrow> if t < settles_after (net c) then Rejected (ErrorObject AbortError)
                  else outcome (net c))"

text \<open>
  The surroundings of a call: the transport, the \<^verbatim>\<open>accessToken\<close> entry of local storage,
  the module constant \<^verbatim>\<open>API_BASE_URL\<close> of the request utilities and the environment
  variable \<^verbatim>\<open>REACT_APP_API_URL\<close>.
\<close>

record env =
  net :: network
  accessToken :: "string option"
  API_BASE_URL :: string
  REACT_APP_API_URL :: "string option"

section \<open>Request utilities\<close>

definition startsWith :: "string \<Rightarrow> string \<Rightarrow> bool" where
  "startsWith s p = (take (length p) s = p)"

text \<open>
  \<^verbatim>\<open>apiRequest\<close>: the timeout defaults to 10000; the controller's signal replaces any signal
  of the options. The result pairs the \<^verbatim>\<open>fetch\<close> calls made with the promise's outcome.
\<close>

definition apiRequest ::
  "env \<Rightarrow> string \<Rightarrow> ApiRequestOptions \<Rightarrow> fetch_call list \<times> (js_error + response)" where
  "apiRequest e endpoint options =
     (let timeout_ms = (case timeout options of None \<Rightarrow> 10000 | Some t \<Rightarrow> t);
          fetchOptions = RequestInit.truncate options;
          u = (if startsWith endpoint ''http'' then endpoint else API_BASE_URL e @ endpoint);
          c = \<lparr>url = u, init = fetchOptions\<lparr>signal := Some timeout_ms\<rparr>\<rparr>
      in ([c],
          case fetch (net e) c of
            Resolved r \<Rightarrow> Inr r
          | Rejected (ErrorObject err) \<Rightarrow>
              if name err = ''AbortError'' then Inl (Error ''Request timeout'') else Inl err
          | Rejected NonError \<Rightarrow> Inl (Error ''Network error'')))"

text \<open>
  \<^verbatim>\<open>token && {Authorization: ...}\<close> spreads nothing when the token is \<^verbatim>\<open>null\<close> or the empty
  string. In an object literal a later property replaces an earlier one of the same name.
\<close>

definition bearer :: "string option \<Rightarrow> (string \<rightharpoonup> string)" where
  "bearer token =
     (case token of
        None \<Rightarrow> Map.empty
      | Some t \<Rightarrow> if t = [] then Map.empty else [''Authorization'' \<mapsto> ''Bearer '' @ t])"

text \<open>
  What the spread \<^verbatim>\<open>...options.headers\<close> copies into an object literal: the own enumerable
  properties of the value. These are the entries of a plain object; none for \<^verbatim>\<open>undefined\<close>
  and none for a \<^verbatim>\<open>Headers\<close> instance, which keeps its entries internally; and for an
  array the indices \<^verbatim>\<open>0\<close>, \<^verbatim>\<open>1\<close>, ..., each holding a pair, shown here as the text
  \<^verbatim>\<open>name,value\<close> that \<^verbatim>\<open>fetch\<close> makes of it.
\<close>

definition index_properties :: "(string \<times> string) list \<Rightarrow> (string \<rightharpoonup> string)" where
  "index_properties ps =
     map_of (zip (map show_nat [0..<length ps]) (map (\<lambda>(k, v). k @ '','' @ v) ps))"

fun own_properties :: "HeadersInit option \<Rightarrow> (string \<rightharpoonup> string)" where
  "own_properties None = Map.empty"
| "own_properties (Some (PlainObject m)) = m"
| "own_properties (Some (HeadersInstance hs)) = Map.empty"
| "own_properties (Some (PairArray ps)) = index_properties ps"

definition authOptions :: "string option \<Rightarrow> ApiRequestOptions \<Rightarrow> ApiRequestOptions" where
  "authOptions token options =
     options\<lparr>headers :=
       Some (PlainObject ([''Content-Type'' \<mapsto> ''application/json''] ++ bearer token
                            ++ own_properties (headers options)))\<rparr>"

definition authenticatedApiRequest ::
  "env \<Rightarrow> string \<Rightarrow> ApiRequestOptions \<Rightarrow> fetch_call list \<times> (js_error + response)" where
  "authenticatedApiRequest e endpoint options =
     apiRequest e endpoint (authOptions (accessToken e) options)"

text \<open>The options object \<^verbatim>\<open>{ method: m }\<close>.\<close>

definition method_only :: "string \<Rightarrow> ApiRequestOptions" where
  "method_only m =
     \<lparr>http_method = Some m, headers = None, body = None, signal = None, timeout = None\<rparr>"

text \<open>
  \<^verbatim>\<open>handleApiError\<close> always throws; the value is the error thrown. A failure inside the
  \<^verbatim>\<open>try\<close> block (the body does not parse, or it is \<^verbatim>\<open>null\<close>) selects the HTTP status line.
\<close>

definition handleApiError :: "response \<Rightarrow> js_error" where
  "handleApiError r =
     (let errorMessage = Some (JStr ''An error occurred'');
          fallback = ''HTTP '' @ show_nat (status r) @ '': '' @ statusText r
      in case json r of
           Inl _ \<Rightarrow> Error fallback
         | Inr errorData \<Rightarrow>
             (case getprop errorData ''error'' of
                Inl _ \<Rightarrow> Error fallback
              | Inr err \<Rightarrow>
                  (case getprop errorData ''message'' of
                     Inl _ \<Rightarrow> Error fallback
                   | Inr msg \<Rightarrow>
                       (case js_or (js_or err msg) errorMessage of
                          None \<Rightarrow> Error []
                        | Some v \<Rightarrow> Error (ToString v)))))"

definition parseApiResponse :: "response \<Rightarrow> js_error + jsval" where
  "parseApiResponse r = (if ok r then json r else Inl (handleApiError r))"

section \<open>Notification state of a surface\<close>

text \<open>
  A \<^verbatim>\<open>CustomerRegistrationNotification\<close>, with the fields the two surfaces read; the key is
  \<^verbatim>\<open>notification_id\<close>. \<open>customer_id\<close> stands for \<^verbatim>\<open>customer_data.id\<close> and
  \<open>customer_name\<close> for \<^verbatim>\<open>customer_data.name\<close>.
\<close>

record notification =
  notification_id :: string
  created_at :: string
  customer_id :: int
  customer_name :: string

text \<open>
  The two state cells \<^verbatim>\<open>notifications\<close> and \<^verbatim>\<open>unreadCount\<close> of a component; both
  components start from \<^verbatim>\<open>useState([])\<close> and \<^verbatim>\<open>useState(0)\<close>. The counter is a JavaScript
  number that only ever holds integers. Cells that only drive rendering (connection flag,
  popover anchor, selected toast) and routing are left out.
\<close>

record store =
  notifications :: "notification list"
  unreadCount :: int

definition initial_store :: store where
  "initial_store = \<lparr>notifications = [], unreadCount = 0\<rparr>"

text \<open>
  The body of \<^verbatim>\<open>GET /customer-notifications/active\<close> seen at its declared type
  \<^verbatim>\<open>{ success: boolean; notifications: CustomerRegistrationNotification[] }\<close>;
  \<open>data_notifications\<close> is \<open>None\<close> when the property is missing or \<^verbatim>\<open>null\<close>. The view from
  the parsed value to this type is a type assertion in the source and a parameter
  \<open>as_data\<close> here.
\<close>

record active_data =
  data_success :: bool
  data_notifications :: "notification list option"

text \<open>A JavaScript number used as a customer id: \<^verbatim>\<open>NaN\<close> or an integer.\<close>

datatype jsnumber = NaN | Num int

fun falsy_number :: "jsnumber \<Rightarrow> bool" where
  "falsy_number NaN = True"
| "falsy_number (Num n) = (n = 0)"

fun isNaN :: "jsnumber \<Rightarrow> bool" where
  "isNaN NaN = True"
| "isNaN (Num n) = False"

fun le_zero :: "jsnumber \<Rightarrow> bool" where
  "le_zero NaN = False"
| "le_zero (Num n) = (n \<le> 0)"

text \<open>A template literal prints \<^verbatim>\<open>null\<close> for a missing token.\<close>

definition token_text :: "string option \<Rightarrow> string" where
  "token_text token = (case token of None \<Rightarrow> ''null'' | Some t \<Rightarrow> t)"

subsection \<open>Dashboard panel\<close>

text \<open>\<^verbatim>\<open>process.env.REACT_APP_API_URL || 'http://localhost:5000/api'\<close>\<close>

definition dashboard_base_url :: "env \<Rightarrow> string" where
  "dashboard_base_url e =
     (case REACT_APP_API_URL e of
        None \<Rightarrow> ''http://localhost:5000/api''
      | Some u \<Rightarrow> if u = [] then ''http://localhost:5000/api'' else u)"

definition dashboard_headers :: "env \<Rightarrow> (string \<rightharpoonup> string)" where
  "dashboard_headers e = [''Authorization'' \<mapsto> ''Bearer '' @ token_text (accessToken e)]"

definition dashboard_handleNewNotification :: "notification \<Rightarrow> store \<Rightarrow> store" where
  "dashboard_handleNewNotification data s =
     s\<lparr>notifications :=
         (if list_ex (\<lambda>n. notification_id n = notification_id data) (notifications s)
          then notifications s
          else take 10 (data # notifications s)),
       unreadCount := unreadCount s + 1\<rparr>"

definition dashboard_loadNotifications ::
  "(jsval \<Rightarrow> active_data) \<Rightarrow> env \<Rightarrow> store \<Rightarrow> fetch_call list \<times> store" where
  "dashboard_loadNotifications as_data e s =
     (let c = \<lparr>url = dashboard_base_url e @ ''/customer-notifications/active'',
               init = \<lparr>http_method = None, headers = Some (PlainObject (dashboard_headers e)),
                        body = None,
                        signal = None\<rparr>\<rparr>
      in ([c],
          case fetch (net e) c of
            Rejected _ \<Rightarrow> s
          | Resolved r \<Rightarrow>
              if ok r then
                (case json r of
                   Inl _ \<Rightarrow> s
                 | Inr j \<Rightarrow>
                     if data_success (as_data j) then
                       (case data_notifications (as_data j) of
                          None \<Rightarrow> s
                        | Some ns \<Rightarrow>
                            s\<lparr>notifications := take 10 ns, unreadCount := int (length ns)\<rparr>)
                     else s)
              else s))"

definition dashboard_handleNotificationAction ::
  "env \<Rightarrow> string \<Rightarrow> jsnumber \<Rightarrow> string \<Rightarrow> store \<Rightarrow> fetch_call list \<times> store" where
  "dashboard_handleNotificationAction e notificationId customerId actionType s =
     (if notificationId = [] \<or> falsy_number customerId \<or> isNaN customerId \<or> le_zero customerId
      then ([], s)
      else
        ([\<lparr>url = dashboard_base_url e @ ''/customer-notifications/'' @ notificationId
                  @ ''/mark-read'',
           init = \<lparr>http_method = Some ''POST'',
                    headers = Some (PlainObject (dashboard_headers e)), body = None,
                    signal = None\<rparr>\<rparr>],
         s\<lparr>notifications := filter (\<lambda>n. notification_id n \<noteq> notificationId) (notifications s),
           unreadCount := max 0 (unreadCount s - 1)\<rparr>))"

subsection \<open>Header bell\<close>

text \<open>
  The handlers of the bell, for a user whose role enables the component. Only the bell
  listens to the marked-read event and offers to mark everything as read.
\<close>

definition bell_handleNewNotification :: "notification \<Rightarrow> store \<Rightarrow> store" where
  "bell_handleNewNotification data s =
     s\<lparr>notifications :=
         (if list_ex (\<lambda>n. notification_id n = notification_id data) (notifications s)
          then notifications s
          else take 20 (data # notifications s)),
       unreadCount := unreadCount s + 1\<rparr>"

definition bell_handleNotificationRead :: "string \<Rightarrow> store \<Rightarrow> store" where
  "bell_handleNotificationRead notificationId s =
     s\<lparr>notifications := filter (\<lambda>n. notification_id n \<noteq> notificationId) (notifications s),
       unreadCount := max 0 (unreadCount s - 1)\<rparr>"

definition bell_loadNotifications ::
  "(jsval \<Rightarrow> active_data) \<Rightarrow> env \<Rightarrow> store \<Rightarrow> fetch_call list \<times> store" where
  "bell_loadNotifications as_data e s =
     (let req = authenticatedApiRequest e ''/customer-notifications/active'' (method_only ''GET'')
      in (fst req,
          case snd req of
            Inl _ \<Rightarrow> s
          | Inr r \<Rightarrow>
              (case parseApiResponse r of
                 Inl _ \<Rightarrow> s
               | Inr j \<Rightarrow>
                   if data_success (as_data j) then
                     (case data_notifications (as_data j) of
                        None \<Rightarrow> s
                      | Some ns \<Rightarrow> s\<lparr>notifications := ns, unreadCount := int (length ns)\<rparr>)
                   else s)))"

definition mark_read_endpoint :: "string \<Rightarrow> string" where
  "mark_read_endpoint notificationId = ''/customer-notifications/'' @ notificationId @ ''/mark-read''"

text \<open>
  \<^verbatim>\<open>handleToastAction\<close> and \<^verbatim>\<open>handleToastDismiss\<close>: the request's failure is caught and
  logged, then the local state is updated.
\<close>

definition bell_handleToastAction ::
  "env \<Rightarrow> string \<Rightarrow> jsnumber \<Rightarrow> string \<Rightarrow> store \<Rightarrow> fetch_call list \<times> store" where
  "bell_handleToastAction e actionType customerId notificationId s =
     (fst (authenticatedApiRequest e (mark_read_endpoint notificationId) (method_only ''POST'')),
      s\<lparr>notifications := filter (\<lambda>n. notification_id n \<noteq> notificationId) (notifications s),
        unreadCount := max 0 (unreadCount s - 1)\<rparr>)"

definition bell_handleToastDismiss :: "env \<Rightarrow> string \<Rightarrow> store \<Rightarrow> fetch_call list \<times> store" where
  "bell_handleToastDismiss e notificationId s =
     (fst (authenticatedApiRequest e (mark_read_endpoint notificationId) (method_only ''POST'')),
      s\<lparr>notifications := filter (\<lambda>n. notification_id n \<noteq> notificationId) (notifications s),
        unreadCount := max 0 (unreadCount s - 1)\<rparr>)"

text \<open>
  \<^verbatim>\<open>Promise.all\<close>: resolves with all the values when every promise resolves, and rejects as
  soon as one rejects. The rejection reported is the first in list order here; the
  handler only logs it.
\<close>

fun Promise_all :: "('e + 'a) list \<Rightarrow> 'e + 'a list" where
  "Promise_all [] = Inr []"
| "Promise_all (Inl err # ps) = Inl err"
| "Promise_all (Inr v # ps) = (case Promise_all ps of Inl err \<Rightarrow> Inl err | Inr vs \<Rightarrow> Inr (v # vs))"

definition bell_handleMarkAllAsRead :: "env \<Rightarrow> store \<Rightarrow> fetch_call list \<times> store" where
  "bell_handleMarkAllAsRead e s =
     (let promises =
            map (\<lambda>n. authenticatedApiRequest e (mark_read_endpoint (notification_id n))
                       (method_only ''POST''))
              (notifications s)
      in (concat (map fst promises),
          case Promise_all (map snd promises) of
            Inl _ \<Rightarrow> s
          | Inr _ \<Rightarrow> s\<lparr>notifications := [], unreadCount := 0\<rparr>))"

section \<open>Runs of a surface\<close>

text \<open>
  What can happen to a mounted component: the snapshot load completes, a push event
  arrives, the user acts. Each request carries the surroundings it runs in.
\<close>

datatype dashboard_event =
    DashboardLoad env
  | DashboardNewNotification notification
  | DashboardAction env string jsnumber string

datatype bell_event =
    BellLoad env
  | BellNewNotification notification
  | BellNotificationRead string
  | BellToastAction env string jsnumber string
  | BellToastDismiss env string
  | BellMarkAllAsRead env

fun dashboard_step :: "(jsval \<Rightarrow> active_data) \<Rightarrow> store \<Rightarrow> dashboard_event \<Rightarrow> store" where
  "dashboard_step as_data s (DashboardLoad e) = snd (dashboard_loadNotifications as_data e s)"
| "dashboard_step as_data s (DashboardNewNotification n) = dashboard_handleNewNotification n s"
| "dashboard_step as_data s (DashboardAction e notificationId customerId actionType) =
     snd (dashboard_handleNotificationAction e notificationId customerId actionType s)"

fun bell_step :: "(jsval \<Rightarrow> active_data) \<Rightarrow> store \<Rightarrow> bell_event \<Rightarrow> store" where
  "bell_step as_data s (BellLoad e) = snd (bell_loadNotifications as_data e s)"
| "bell_step as_data s (BellNewNotification n) = bell_handleNewNotification n s"
| "bell_step as_data s (BellNotificationRead notificationId) =
     bell_handleNotificationRead notificationId s"
| "bell_step as_data s (BellToastAction e actionType customerId notificationId) =
     snd (bell_handleToastAction e actionType customerId notificationId s)"
| "bell_step as_data s (BellToastDismiss e notificationId) =
     snd (bell_handleToastDismiss e notificationId s)"
| "bell_step as_data s (BellMarkAllAsRead e) = snd (bell_handleMarkAllAsRead e s)"

definition dashboard_run :: "(jsval \<Rightarrow> active_data) \<Rightarrow> dashboard_event list \<Rightarrow> store" where
  "dashboard_run as_data evs = foldl (dashboard_step as_data) initial_store evs"

definition bell_run :: "(jsval \<Rightarrow> active_data) \<Rightarrow> bell_event list \<Rightarrow> store" where
  "bell_run as_data evs = foldl (bell_step as_data) initial_store evs"

text \<open>Push events delivered one after the other, the head of the list first.\<close>

definition dashboard_receive_all :: "notification list \<Rightarrow> store \<Rightarrow> store" where
  "dashboard_receive_all ns s = foldl (\<lambda>t n. dashboard_handleNewNotification n t) s ns"

definition bell_receive_all :: "notification list \<Rightarrow> store \<Rightarrow> store" where
  "bell_receive_all ns s = foldl (\<lambda>t n. bell_handleNewNotification n t) s ns"

section \<open>Notions used in the statements\<close>

text \<open>The timeout \<^verbatim>\<open>apiRequest\<close> arms for the given options.\<close>

definition timeout_ms :: "ApiRequestOptions \<Rightarrow> nat" where
  "timeout_ms options = (case timeout options of None \<Rightarrow> 10000 | Some t \<Rightarrow> t)"


text \<open>The list update both \<^verbatim>\<open>handleNewNotification\<close> handlers make, for a capacity.\<close>

definition insert_capped :: "nat \<Rightarrow> notification \<Rightarrow> notification list \<Rightarrow> notification list" where
  "insert_capped cap data prev =
     (if list_ex (\<lambda>n. notification_id n = notification_id data) prev then prev
      else take cap (data # prev))"

text \<open>A notification with the given id is held.\<close>

definition holds_id :: "store \<Rightarrow> string \<Rightarrow> bool" where
  "holds_id s i = list_ex (\<lambda>n. notification_id n = i) (notifications s)"

text \<open>The number of held notifications with the given id.\<close>

definition copies :: "store \<Rightarrow> string \<Rightarrow> nat" where
  "copies s i = length (filter (\<lambda>n. notification_id n = i) (notifications s))"

text \<open>The ids of the held notifications are pairwise different.\<close>

definition unique_ids :: "store \<Rightarrow> bool" where
  "unique_ids s = distinct (map notification_id (notifications s))"

text \<open>The mark-read request of the bell for a notification resolves with a response.\<close>

definition mark_read_resolves :: "env \<Rightarrow> notification \<Rightarrow> bool" where
  "mark_read_resolves e n =
     (case snd (authenticatedApiRequest e (mark_read_endpoint (notification_id n))
                  (method_only ''POST'')) of
        Inl _ \<Rightarrow> False
      | Inr _ \<Rightarrow> True)"

text \<open>
  The local effect of a mark-read on the state \<open>s\<close>, giving \<open>t\<close>: every entry with the id
  is dropped and the others keep their order, the counter goes down by one but not below
  zero; an absent id leaves the list as it is, and a present id costs exactly one entry
  when the held ids are pairwise different.
\<close>

definition mark_read_effect :: "string \<Rightarrow> store \<Rightarrow> store \<Rightarrow> bool" where
  "mark_read_effect i s t =
     (notifications t = filter (\<lambda>n. notification_id n \<noteq> i) (notifications s) \<and>
      unreadCount t = max 0 (unreadCount s - 1) \<and>
      (if holds_id s i
       then (unique_ids s \<longrightarrow> length (notifications t) + 1 = length (notifications s))
       else notifications t = notifications s))"

section \<open>Concrete inputs\<close>

definition sample :: "nat \<Rightarrow> notification" where
  "sample k = \<lparr>notification_id = ''n'' @ show_nat k, created_at = ''2024-05-01T08:00:00Z'',
                customer_id = int k, customer_name = ''customer''\<rparr>"

definition samples :: "nat \<Rightarrow> notification list" where
  "samples k = map sample [1..<Suc k]"

text \<open>A view of a parsed body at the declared type of the active-notifications reply.\<close>

fun as_string :: "jsval option \<Rightarrow> string" where
  "as_string (Some (JStr s)) = s"
| "as_string v = []"

fun as_int :: "jsval option \<Rightarrow> int" where
  "as_int (Some (JNum n)) = n"
| "as_int v = 0"

fun field :: "jsval \<Rightarrow> string \<Rightarrow> jsval option" where
  "field (JObj kvs) k = map_of kvs k"
| "field v k = None"

definition as_notification :: "jsval \<Rightarrow> notification" where
  "as_notification j =
     \<lparr>notification_id = as_string (field j ''notification_id''),
      created_at = as_string (field j ''created_at''),
      customer_id = (case field j ''customer_data'' of None \<Rightarrow> 0 | Some c \<Rightarrow> as_int (field c ''id'')),
      customer_name =
        (case field j ''customer_data'' of None \<Rightarrow> [] | Some c \<Rightarrow> as_string (field c ''name''))\<rparr>"

definition as_active_data :: "jsval \<Rightarrow> active_data" where
  "as_active_data j =
     \<lparr>data_success = truthy (field j ''success''),
      data_notifications =
        (case field j ''notifications'' of
           Some (JArr xs) \<Rightarrow> Some (map as_notification xs)
         | _ \<Rightarrow> None)\<rparr>"

definition sample_json :: "nat \<Rightarrow> jsval" where
  "sample_json k =
     JObj [(''notification_id'', JStr (''n'' @ show_nat k)),
           (''created_at'', JStr ''2024-05-01T08:00:00Z''),
           (''customer_data'', JObj [(''id'', JNum (int k)), (''name'', JStr ''customer'')])]"

definition snapshot_json :: "nat \<Rightarrow> jsval" where
  "snapshot_json k =
     JObj [(''success'', JBool True), (''notifications'', JArr (map sample_json [1..<Suc k]))]"

text \<open>A backend that answers every request at once with a snapshot of \<open>k\<close> notifications.\<close>

definition snapshot_env :: "nat \<Rightarrow> env" where
  "snapshot_env k =
     \<lparr>net = (\<lambda>c. \<lparr>settles_after = 20,
                   outcome = Resolved \<lparr>ok = True, status = 200, statusText = ''OK'',
                                       json = Inr (snapshot_json k)\<rparr>\<rparr>),
      accessToken = Some ''tok'', API_BASE_URL = ''http://localhost:5000/api'',
      REACT_APP_API_URL = None\<rparr>"

text \<open>A backend that needs 10001 ms for every answer.\<close>

definition slow_env :: env where
  "slow_env =
     \<lparr>net = (\<lambda>c. \<lparr>settles_after = 10001,
                   outcome = Resolved \<lparr>ok = True, status = 200, statusText = ''OK'',
                                       json = Inr JNull\<rparr>\<rparr>),
      accessToken = None, API_BASE_URL = ''http://localhost:5000/api'',
      REACT_APP_API_URL = None\<rparr>"

text \<open>A transport on which every request fails after 3 ms.\<close>

definition down_env :: env where
  "down_env =
     \<lparr>net = (\<lambda>c. \<lparr>settles_after = 3,
                   outcome = Rejected (ErrorObject (TypeError ''Failed to fetch''))\<rparr>),
      accessToken = Some ''tok'', API_BASE_URL = ''http://localhost:5000/api'',
      REACT_APP_API_URL = None\<rparr>"

text \<open>A backend that answers every request with status 500.\<close>

definition failing_env :: env where
  "failing_env =
     \<lparr>net = (\<lambda>c. \<lparr>settles_after = 15,
                   outcome = Resolved \<lparr>ok = False, status = 500,
                                       statusText = ''Internal Server Error'',
                                       json = Inr (JObj [(''error'', JStr ''database down'')])\<rparr>\<rparr>),
      accessToken = Some ''tok'', API_BASE_URL = ''http://localhost:5000/api'',
      REACT_APP_API_URL = None\<rparr>"



section \<open>Properties of the request utilities\<close>

lemma apiRequest_call:
  "fst (apiRequest e endpoint options) =
     [\<lparr>url = (if startsWith endpoint ''http'' then endpoint else API_BASE_URL e @ endpoint),
       init = \<lparr>http_method = http_method options, headers = headers options, body = body options,
                signal = Some (timeout_ms options)\<rparr>\<rparr>]"
  by (simp add: apiRequest_def Let_def RequestInit.truncate_def timeout_ms_def)

lemma Error_eqI: "name err = ''Error'' \<Longrightarrow> message err = m \<Longrightarrow> err = Error m"
  by (simp add: Error_def)

text \<open>
  C8. \<^verbatim>\<open>apiRequest\<close> arms a timer of \<open>timeout_ms options\<close> milliseconds, 10000 when the
  options give none. A call whose transport takes longer than that fails with the error
  \<^verbatim>\<open>Error('Request timeout')\<close>. A call that fails within the time fails differently: with
  \<^verbatim>\<open>Error('Network error')\<close> when a value that is no \<^verbatim>\<open>Error\<close> was thrown, and with the
  \<^verbatim>\<open>TypeError\<close> of \<^verbatim>\<open>fetch\<close> itself on a transport failure; neither equals the timeout error.
\<close>

theorem apiRequest_timeout:
  "(timeout options = None \<longrightarrow> timeout_ms options = 10000) \<and>
   (timeout_ms options < settles_after (net e (hd (fst (apiRequest e endpoint options)))) \<longrightarrow>
      snd (apiRequest e endpoint options) = Inl (Error ''Request timeout'')) \<and>
   (settles_after (net e (hd (fst (apiRequest e endpoint options)))) \<le> timeout_ms options \<and>
    outcome (net e (hd (fst (apiRequest e endpoint options)))) = Rejected NonError \<longrightarrow>
      snd (apiRequest e endpoint options) = Inl (Error ''Network error'') \<and>
      snd (apiRequest e endpoint options) \<noteq> Inl (Error ''Request timeout'')) \<and>
   (\<forall>err. settles_after (net e (hd (fst (apiRequest e endpoint options)))) \<le> timeout_ms options \<and>
      outcome (net e (hd (fst (apiRequest e endpoint options)))) = Rejected (ErrorObject err) \<and>
      name err = ''TypeError'' \<longrightarrow>
      snd (apiRequest e endpoint options) = Inl err \<and>
      snd (apiRequest e endpoint options) \<noteq> Inl (Error ''Request timeout''))"
  by (auto simp: apiRequest_def Let_def fetch_def timeout_ms_def Error_def AbortError_def
        RequestInit.truncate_def split: option.splits)

theorem apiRequest_timeout_witness:
  "snd (apiRequest slow_env ''/queue/stats'' (method_only ''GET''))
     = Inl (Error ''Request timeout'') \<and>
   snd (apiRequest down_env ''/queue/stats'' (method_only ''GET''))
     = Inl (TypeError ''Failed to fetch'') \<and>
   snd (apiRequest down_env ''/queue/stats'' (method_only ''GET''))
     \<noteq> Inl (Error ''Request timeout'')"
proof -
  have t: "timeout_ms (method_only ''GET'') = 10000"
    by (simp add: timeout_ms_def method_only_def)
  have slow: "timeout_ms (method_only ''GET'')
      < settles_after (net slow_env
          (hd (fst (apiRequest slow_env ''/queue/stats'' (method_only ''GET'')))))"
    by (simp add: t slow_env_def)
  have down:
    "settles_after (net down_env
        (hd (fst (apiRequest down_env ''/queue/stats'' (method_only ''GET'')))))
      \<le> timeout_ms (method_only ''GET'')"
    "outcome (net down_env
        (hd (fst (apiRequest down_env ''/queue/stats'' (method_only ''GET'')))))
      = Rejected (ErrorObject (TypeError ''Failed to fetch''))"
    "name (TypeError ''Failed to fetch'') = ''TypeError''"
    by (simp_all add: t down_env_def TypeError_def)
  show ?thesis
    using apiRequest_timeout [of "method_only ''GET''" slow_env "''/queue/stats''"]
      apiRequest_timeout [of "method_only ''GET''" down_env "''/queue/stats''"] slow down
    by blast
qed

text \<open>
  C9. For a response whose status is not a success, \<^verbatim>\<open>parseApiResponse\<close> throws the
  \<^verbatim>\<open>Error\<close> built by \<^verbatim>\<open>handleApiError\<close>. Its message is the body's \<^verbatim>\<open>error\<close> property when
  that is truthy, else the body's \<^verbatim>\<open>message\<close> property when that is truthy, and the line
  \<^verbatim>\<open>HTTP <status>: <statusText>\<close> when the body does not parse as JSON.
\<close>

theorem parseApiResponse_failure_message:
  "\<not> ok r \<Longrightarrow>
   parseApiResponse r = Inl (handleApiError r) \<and>
   name (handleApiError r) = ''Error'' \<and>
   (\<forall>kvs v. json r = Inr (JObj kvs) \<and> map_of kvs ''error'' = Some v \<and> truthy (Some v)
       \<longrightarrow> message (handleApiError r) = ToString v) \<and>
   (\<forall>kvs v. json r = Inr (JObj kvs) \<and> \<not> truthy (map_of kvs ''error'')
              \<and> map_of kvs ''message'' = Some v \<and> truthy (Some v)
       \<longrightarrow> message (handleApiError r) = ToString v) \<and>
   (\<forall>err. json r = Inl err
       \<longrightarrow> message (handleApiError r) = ''HTTP '' @ show_nat (status r) @ '': '' @ statusText r)"
  by (auto simp: parseApiResponse_def handleApiError_def Error_def js_or_def Let_def
           split: sum.splits option.splits)

text \<open>
  The 404 reply with the body \<^verbatim>\<open>{"error":"not found"}\<close>, a reply whose \<^verbatim>\<open>error\<close> is empty
  and whose \<^verbatim>\<open>message\<close> is set, and a reply whose body is no JSON.
\<close>

theorem parseApiResponse_failure_message_witness:
  "parseApiResponse \<lparr>ok = False, status = 404, statusText = ''Not Found'',
       json = Inr (JObj [(''error'', JStr ''not found'')])\<rparr> = Inl (Error ''not found'') \<and>
   parseApiResponse \<lparr>ok = False, status = 410, statusText = ''Gone'',
       json = Inr (JObj [(''error'', JStr []), (''message'', JStr ''gone'')])\<rparr>
     = Inl (Error ''gone'') \<and>
   parseApiResponse \<lparr>ok = False, status = 502, statusText = ''Bad Gateway'',
       json = Inl \<lparr>name = ''SyntaxError'', message = ''Unexpected token''\<rparr>\<rparr>
     = Inl (Error ''HTTP 502: Bad Gateway'')"
proof -
  let ?a = "\<lparr>ok = False, status = 404, statusText = ''Not Found'',
       json = Inr (JObj [(''error'', JStr ''not found'')])\<rparr>"
  let ?b = "\<lparr>ok = False, status = 410, statusText = ''Gone'',
       json = Inr (JObj [(''error'', JStr []), (''message'', JStr ''gone'')])\<rparr>"
  let ?c = "\<lparr>ok = False, status = 502, statusText = ''Bad Gateway'',
       json = Inl \<lparr>name = ''SyntaxError'', message = ''Unexpected token''\<rparr>\<rparr>"
  have digits: "show_nat 502 = ''502''"
    by code_simp
  have a: "parseApiResponse ?a = Inl (handleApiError ?a)"
    "name (handleApiError ?a) = ''Error''" "message (handleApiError ?a) = ''not found''"
    using parseApiResponse_failure_message [of ?a] by simp_all
  have b: "parseApiResponse ?b = Inl (handleApiError ?b)"
    "name (handleApiError ?b) = ''Error''" "message (handleApiError ?b) = ''gone''"
    using parseApiResponse_failure_message [of ?b] by simp_all
  have c: "parseApiResponse ?c = Inl (handleApiError ?c)"
    "name (handleApiError ?c) = ''Error''"
    "message (handleApiError ?c) = ''HTTP 502: Bad Gateway''"
    using parseApiResponse_failure_message [of ?c] digits by simp_all
  show ?thesis
    by (simp only: a b c Error_eqI [OF a(2) a(3)] Error_eqI [OF b(2) b(3)]
          Error_eqI [OF c(2) c(3)])
qed




section \<open>Properties of the notification state\<close>

subsection \<open>Receiving\<close>

lemma dashboard_new_list:
  "notifications (dashboard_handleNewNotification n s) = insert_capped 10 n (notifications s)"
  by (simp add: dashboard_handleNewNotification_def insert_capped_def)

lemma dashboard_new_count:
  "unreadCount (dashboard_handleNewNotification n s) = unreadCount s + 1"
  by (simp add: dashboard_handleNewNotification_def)

lemma bell_new_list:
  "notifications (bell_handleNewNotification n s) = insert_capped 20 n (notifications s)"
  by (simp add: bell_handleNewNotification_def insert_capped_def)

lemma bell_new_count:
  "unreadCount (bell_handleNewNotification n s) = unreadCount s + 1"
  by (simp add: bell_handleNewNotification_def)

lemma list_ex_id_iff:
  "list_ex (\<lambda>m. notification_id m = i) l \<longleftrightarrow> i \<in> notification_id ` set l"
  by (auto simp: list_ex_iff)

lemma insert_capped_present:
  "notification_id n \<in> notification_id ` set l \<Longrightarrow> insert_capped cap n l = l"
  by (simp add: insert_capped_def list_ex_id_iff)

lemma insert_capped_fresh:
  "notification_id n \<notin> notification_id ` set l \<Longrightarrow> insert_capped cap n l = take cap (n # l)"
  by (simp add: insert_capped_def list_ex_id_iff)

lemma take_append_take: "take k (xs @ take k ys) = take k (xs @ ys)"
  by (simp add: min_def)

lemma disjoint_subset_insert:
  "B' \<subseteq> insert a B \<Longrightarrow> a \<notin> A \<Longrightarrow> A \<inter> B = {} \<Longrightarrow> A \<inter> B' = {}"
  by auto

lemma disjoint_after_insert:
  assumes "notification_id x \<notin> notification_id ` set xs"
    and "notification_id ` set xs \<inter> notification_id ` set l = {}"
  shows "notification_id ` set xs \<inter> notification_id ` set (take cap (x # l)) = {}"
proof -
  have "notification_id ` set (take cap (x # l)) \<subseteq> notification_id ` set (x # l)"
    by (rule image_mono) (rule set_take_subset)
  then have "notification_id ` set (take cap (x # l))
      \<subseteq> insert (notification_id x) (notification_id ` set l)"
    by simp
  then show ?thesis
    using assms by (rule disjoint_subset_insert)
qed

lemma foldl_insert_capped_short:
  assumes "distinct (map notification_id ns)"
    and "notification_id ` set ns \<inter> notification_id ` set l = {}"
    and "length l \<le> cap"
  shows "foldl (\<lambda>l n. insert_capped cap n l) l ns = take cap (rev ns @ l)"
  using assms
proof (induction ns arbitrary: l)
  case Nil
  then show ?case
    by simp
next
  case (Cons x xs)
  have fresh: "notification_id x \<notin> notification_id ` set l"
    using Cons.prems(2) by auto
  have disj: "notification_id ` set xs \<inter> notification_id ` set (take cap (x # l)) = {}"
    using Cons.prems(1,2) by (intro disjoint_after_insert) auto
  have short: "length (take cap (x # l)) \<le> cap"
    by simp
  have "foldl (\<lambda>l n. insert_capped cap n l) l (x # xs)
      = foldl (\<lambda>l n. insert_capped cap n l) (take cap (x # l)) xs"
    by (simp add: insert_capped_fresh [OF fresh])
  also have "\<dots> = take cap (rev xs @ take cap (x # l))"
    using Cons.IH [OF _ disj short] Cons.prems(1) by simp
  also have "\<dots> = take cap (rev (x # xs) @ l)"
    by (simp only: take_append_take) simp
  finally show ?case .
qed

text \<open>
  After at least one fresh arrival the list is the capped merge, whatever its length
  was before (a snapshot of the bell may exceed the capacity).
\<close>

lemma foldl_insert_capped:
  assumes "distinct (map notification_id ns)"
    and "notification_id ` set ns \<inter> notification_id ` set l = {}"
    and "ns \<noteq> []"
  shows "foldl (\<lambda>l n. insert_capped cap n l) l ns = take cap (rev ns @ l)"
proof (cases ns)
  case Nil
  with assms(3) show ?thesis
    by simp
next
  case (Cons x xs)
  have fresh: "notification_id x \<notin> notification_id ` set l"
    using assms(2) Cons by auto
  have disj: "notification_id ` set xs \<inter> notification_id ` set (take cap (x # l)) = {}"
    using assms(1,2) Cons by (intro disjoint_after_insert) auto
  have d: "distinct (map notification_id xs)"
    using assms(1) Cons by simp
  have "foldl (\<lambda>l n. insert_capped cap n l) l ns
      = foldl (\<lambda>l n. insert_capped cap n l) (take cap (x # l)) xs"
    by (simp add: Cons insert_capped_fresh [OF fresh])
  also have "\<dots> = take cap (rev xs @ take cap (x # l))"
    by (rule foldl_insert_capped_short [OF d disj]) simp
  also have "\<dots> = take cap (rev ns @ l)"
    by (simp only: take_append_take Cons) simp
  finally show ?thesis .
qed

lemma dashboard_receive_all_list:
  "notifications (dashboard_receive_all ns s)
     = foldl (\<lambda>l n. insert_capped 10 n l) (notifications s) ns"
  unfolding dashboard_receive_all_def
  by (induction ns arbitrary: s) (simp_all add: dashboard_new_list)

lemma bell_receive_all_list:
  "notifications (bell_receive_all ns s)
     = foldl (\<lambda>l n. insert_capped 20 n l) (notifications s) ns"
  unfolding bell_receive_all_def
  by (induction ns arbitrary: s) (simp_all add: bell_new_list)

lemma fresh_ids_disjoint:
  "list_all (\<lambda>n. \<not> holds_id s (notification_id n)) ns \<Longrightarrow>
   notification_id ` set ns \<inter> notification_id ` set (notifications s) = {}"
  by (auto simp: list_all_iff holds_id_def list_ex_id_iff)

text \<open>
  C4. A push event whose id is already held leaves the list as it is and still adds one
  to \<^verbatim>\<open>unreadCount\<close>, on both surfaces.
\<close>

theorem duplicate_push_counts:
  "holds_id s (notification_id n) \<Longrightarrow>
   notifications (dashboard_handleNewNotification n s) = notifications s \<and>
   unreadCount (dashboard_handleNewNotification n s) = unreadCount s + 1 \<and>
   notifications (bell_handleNewNotification n s) = notifications s \<and>
   unreadCount (bell_handleNewNotification n s) = unreadCount s + 1"
  by (simp add: holds_id_def dashboard_handleNewNotification_def bell_handleNewNotification_def)

text \<open>
  A store of three notifications and a push event that reuses the id of the second with
  another customer name.
\<close>

theorem duplicate_push_counts_witness:
  "holds_id \<lparr>notifications = samples 3, unreadCount = 3\<rparr>
     (notification_id ((sample 2)\<lparr>customer_name := ''other''\<rparr>)) \<and>
   notifications (dashboard_handleNewNotification ((sample 2)\<lparr>customer_name := ''other''\<rparr>)
     \<lparr>notifications = samples 3, unreadCount = 3\<rparr>) = samples 3 \<and>
   unreadCount (dashboard_handleNewNotification ((sample 2)\<lparr>customer_name := ''other''\<rparr>)
     \<lparr>notifications = samples 3, unreadCount = 3\<rparr>) = 4 \<and>
   notifications (bell_handleNewNotification ((sample 2)\<lparr>customer_name := ''other''\<rparr>)
     \<lparr>notifications = samples 3, unreadCount = 3\<rparr>) = samples 3 \<and>
   unreadCount (bell_handleNewNotification ((sample 2)\<lparr>customer_name := ''other''\<rparr>)
     \<lparr>notifications = samples 3, unreadCount = 3\<rparr>) = 4"
proof -
  have held: "holds_id \<lparr>notifications = samples 3, unreadCount = 3\<rparr>
     (notification_id ((sample 2)\<lparr>customer_name := ''other''\<rparr>))"
    by code_simp
  show ?thesis
    using duplicate_push_counts [OF held] held by simp
qed

text \<open>
  C5. Notifications with pairwise different ids, none of them held before, arrive one
  after the other. When more than 10 arrive, the dashboard panel holds exactly the last
  10 of them, the newest first; when more than 20 arrive, the bell holds exactly the last
  20, the newest first. Whatever was held before, and the earlier arrivals, are gone.
\<close>

theorem receive_keeps_most_recent:
  assumes "distinct (map notification_id ns)"
    and "list_all (\<lambda>n. \<not> holds_id s (notification_id n)) ns"
  shows "(10 < length ns \<longrightarrow>
            notifications (dashboard_receive_all ns s) = take 10 (rev ns)) \<and>
         (20 < length ns \<longrightarrow>
            notifications (bell_receive_all ns s) = take 20 (rev ns))"
proof -
  have disj: "notification_id ` set ns \<inter> notification_id ` set (notifications s) = {}"
    using assms(2) by (rule fresh_ids_disjoint)
  have "notifications (dashboard_receive_all ns s) = take 10 (rev ns)" if "10 < length ns"
  proof -
    have "ns \<noteq> []"
      using that by auto
    then have "notifications (dashboard_receive_all ns s) = take 10 (rev ns @ notifications s)"
      using foldl_insert_capped [OF assms(1) disj] by (simp add: dashboard_receive_all_list)
    then show ?thesis
      using that by simp
  qed
  moreover
  have "notifications (bell_receive_all ns s) = take 20 (rev ns)" if "20 < length ns"
  proof -
    have "ns \<noteq> []"
      using that by auto
    then have "notifications (bell_receive_all ns s) = take 20 (rev ns @ notifications s)"
      using foldl_insert_capped [OF assms(1) disj] by (simp add: bell_receive_all_list)
    then show ?thesis
      using that by simp
  qed
  ultimately show ?thesis
    by blast
qed

text \<open>Twenty-one arrivals \<^verbatim>\<open>n1\<close>, ..., \<^verbatim>\<open>n21\<close> on a store that holds \<^verbatim>\<open>n30\<close>.\<close>

theorem receive_keeps_most_recent_witness:
  "map notification_id (notifications
       (dashboard_receive_all (samples 21) \<lparr>notifications = [sample 30], unreadCount = 1\<rparr>))
     = [''n21'', ''n20'', ''n19'', ''n18'', ''n17'', ''n16'', ''n15'', ''n14'', ''n13'', ''n12''] \<and>
   map notification_id (notifications
       (bell_receive_all (samples 21) \<lparr>notifications = [sample 30], unreadCount = 1\<rparr>))
     = [''n21'', ''n20'', ''n19'', ''n18'', ''n17'', ''n16'', ''n15'', ''n14'', ''n13'', ''n12'',
        ''n11'', ''n10'', ''n9'', ''n8'', ''n7'', ''n6'', ''n5'', ''n4'', ''n3'', ''n2'']"
proof -
  let ?s = "\<lparr>notifications = [sample 30], unreadCount = 1\<rparr>"
  have d: "distinct (map notification_id (samples 21))"
    by code_simp
  have f: "list_all (\<lambda>n. \<not> holds_id ?s (notification_id n)) (samples 21)"
    by code_simp
  have len: "10 < length (samples 21)" "20 < length (samples 21)"
    by (simp_all add: samples_def)
  have t10: "map notification_id (take 10 (rev (samples 21)))
      = [''n21'', ''n20'', ''n19'', ''n18'', ''n17'', ''n16'', ''n15'', ''n14'', ''n13'', ''n12'']"
    by code_simp
  have t20: "map notification_id (take 20 (rev (samples 21)))
      = [''n21'', ''n20'', ''n19'', ''n18'', ''n17'', ''n16'', ''n15'', ''n14'', ''n13'', ''n12'',
         ''n11'', ''n10'', ''n9'', ''n8'', ''n7'', ''n6'', ''n5'', ''n4'', ''n3'', ''n2'']"
    by code_simp
  show ?thesis
    using receive_keeps_most_recent [OF d f] len t10 t20 by simp
qed

lemma insert_capped_twice:
  "0 < cap \<Longrightarrow> insert_capped cap n (insert_capped cap n l) = insert_capped cap n l"
  by (cases cap) (auto simp: insert_capped_def)

lemma no_copy_absent:
  "i \<notin> notification_id ` set l \<Longrightarrow> filter (\<lambda>k. notification_id k = i) l = []"
  by (induction l) auto

lemma one_copy_of_held:
  "distinct (map notification_id l) \<Longrightarrow> m \<in> set l \<Longrightarrow>
   length (filter (\<lambda>k. notification_id k = notification_id m) l) = 1"
proof (induction l)
  case Nil
  then show ?case
    by simp
next
  case (Cons a l)
  show ?case
  proof (cases "notification_id a = notification_id m")
    case True
    have "filter (\<lambda>k. notification_id k = notification_id m) l = []"
      using Cons.prems(1) True by (intro no_copy_absent) simp
    then show ?thesis
      using True by simp
  next
    case False
    then have "m \<in> set l"
      using Cons.prems(2) by auto
    then show ?thesis
      using Cons.IH Cons.prems(1) False by simp
  qed
qed

lemma insert_capped_one_copy:
  assumes "distinct (map notification_id l)" and "0 < cap"
  shows "length (filter (\<lambda>k. notification_id k = notification_id n) (insert_capped cap n l)) = 1"
proof (cases "notification_id n \<in> notification_id ` set l")
  case True
  then obtain m where m: "m \<in> set l" "notification_id m = notification_id n"
    by auto
  show ?thesis
    using one_copy_of_held [OF assms(1) m(1)] m(2) True by (simp add: insert_capped_present)
next
  case False
  obtain c where c: "cap = Suc c"
    using assms(2) by (cases cap) auto
  have "notification_id ` set (take c l) \<subseteq> notification_id ` set l"
    by (rule image_mono) (rule set_take_subset)
  then have "notification_id n \<notin> notification_id ` set (take c l)"
    using False by (rule contra_subsetD)
  then have "filter (\<lambda>k. notification_id k = notification_id n) (take c l) = []"
    by (rule no_copy_absent)
  then show ?thesis
    using False c by (simp add: insert_capped_fresh)
qed

text \<open>
  C6. Delivering the same notification twice gives the list that delivering it once
  gives, on both surfaces; and when the ids held before are pairwise different, the list
  then holds exactly one entry with the id of the notification.
\<close>

theorem receive_twice_one_copy:
  "notifications (dashboard_handleNewNotification n (dashboard_handleNewNotification n s))
     = notifications (dashboard_handleNewNotification n s) \<and>
   notifications (bell_handleNewNotification n (bell_handleNewNotification n s))
     = notifications (bell_handleNewNotification n s) \<and>
   (unique_ids s \<longrightarrow>
      copies (dashboard_handleNewNotification n (dashboard_handleNewNotification n s))
        (notification_id n) = 1 \<and>
      copies (bell_handleNewNotification n (bell_handleNewNotification n s))
        (notification_id n) = 1)"
  by (simp add: dashboard_new_list bell_new_list insert_capped_twice copies_def unique_ids_def
        insert_capped_one_copy)

text \<open>The notification \<^verbatim>\<open>n4\<close> delivered twice to a store that holds \<^verbatim>\<open>n1\<close>, \<^verbatim>\<open>n2\<close>, \<^verbatim>\<open>n3\<close>.\<close>

theorem receive_twice_one_copy_witness:
  "unique_ids \<lparr>notifications = samples 3, unreadCount = 3\<rparr> \<and>
   copies (dashboard_handleNewNotification (sample 4) (dashboard_handleNewNotification (sample 4)
     \<lparr>notifications = samples 3, unreadCount = 3\<rparr>)) (notification_id (sample 4)) = 1 \<and>
   copies (bell_handleNewNotification (sample 4) (bell_handleNewNotification (sample 4)
     \<lparr>notifications = samples 3, unreadCount = 3\<rparr>)) (notification_id (sample 4)) = 1"
proof -
  have u: "unique_ids \<lparr>notifications = samples 3, unreadCount = 3\<rparr>"
    by code_simp
  show ?thesis
    using receive_twice_one_copy [of "sample 4" "\<lparr>notifications = samples 3, unreadCount = 3\<rparr>"] u
    by blast
qed

subsection \<open>Marking as read\<close>

lemma filter_absent:
  "\<not> list_ex (\<lambda>n. notification_id n = i) l \<Longrightarrow> filter (\<lambda>n. notification_id n \<noteq> i) l = l"
  by (induction l) auto

lemma filter_present_unique:
  "distinct (map notification_id l) \<Longrightarrow> list_ex (\<lambda>n. notification_id n = i) l \<Longrightarrow>
   Suc (length (filter (\<lambda>n. notification_id n \<noteq> i) l)) = length l"
proof (induction l)
  case Nil
  then show ?case
    by simp
next
  case (Cons a l)
  show ?case
  proof (cases "notification_id a = i")
    case True
    then have "\<not> list_ex (\<lambda>n. notification_id n = i) l"
      using Cons.prems(1) by (simp add: list_ex_id_iff)
    then show ?thesis
      using True by (simp add: filter_absent)
  next
    case False
    then show ?thesis
      using Cons by simp
  qed
qed

lemma mark_read_effectI:
  "mark_read_effect i s
     (s\<lparr>notifications := filter (\<lambda>n. notification_id n \<noteq> i) (notifications s),
        unreadCount := max 0 (unreadCount s - 1)\<rparr>)"
  by (simp add: mark_read_effect_def holds_id_def unique_ids_def filter_absent
        filter_present_unique)

lemma mark_read_effect_list:
  "mark_read_effect i s t \<Longrightarrow>
   notifications t = filter (\<lambda>n. notification_id n \<noteq> i) (notifications s)"
  unfolding mark_read_effect_def by (elim conjE)

lemma mark_read_effect_count:
  "mark_read_effect i s t \<Longrightarrow> unreadCount t = max 0 (unreadCount s - 1)"
  unfolding mark_read_effect_def by (elim conjE)

lemma mark_read_effect_absent:
  "mark_read_effect i s t \<Longrightarrow> \<not> holds_id s i \<Longrightarrow> notifications t = notifications s"
  unfolding mark_read_effect_def by (elim conjE) (simp only: if_False)

text \<open>
  C3 (as amended). Every mark-read path drops the entries with the given id, keeping the
  others in order, and lowers \<^verbatim>\<open>unreadCount\<close> by one but not below zero, whether or not
  the id is held: with pairwise different ids a held id costs exactly one entry, an
  absent id leaves the list unchanged. The paths are the bell's marked-read event, toast
  action and toast dismissal, and the dashboard's action when the notification id is not
  empty and the customer id is a positive number; otherwise the dashboard's action
  changes nothing and sends nothing.
\<close>

theorem mark_read_paths:
  "mark_read_effect i s (bell_handleNotificationRead i s) \<and>
   mark_read_effect i s (snd (bell_handleToastAction e actionType customerId i s)) \<and>
   mark_read_effect i s (snd (bell_handleToastDismiss e i s)) \<and>
   (i \<noteq> [] \<and> 0 < k \<longrightarrow>
      mark_read_effect i s (snd (dashboard_handleNotificationAction e i (Num k) actionType s))) \<and>
   (i = [] \<or> customerId = NaN \<or> le_zero customerId \<longrightarrow>
      dashboard_handleNotificationAction e i customerId actionType s = ([], s))"
proof -
  have guard: "falsy_number customerId \<or> isNaN customerId \<or> le_zero customerId"
    if "customerId = NaN \<or> le_zero customerId"
    using that by (cases customerId) auto
  show ?thesis
    using guard
    by (auto simp: bell_handleNotificationRead_def bell_handleToastAction_def
          bell_handleToastDismiss_def dashboard_handleNotificationAction_def mark_read_effectI)
qed

text \<open>
  A store holding \<^verbatim>\<open>n1\<close>, \<^verbatim>\<open>n2\<close>, \<^verbatim>\<open>n3\<close> with counter 3: the dashboard marks \<^verbatim>\<open>n2\<close> as read
  for customer 2, the bell dismisses the absent \<^verbatim>\<open>n9\<close>, and the dashboard is handed a
  customer id that is no number.
\<close>

theorem mark_read_paths_witness:
  "map notification_id (notifications (snd (dashboard_handleNotificationAction down_env ''n2''
       (Num 2) ''view_customer'' \<lparr>notifications = samples 3, unreadCount = 3\<rparr>)))
     = [''n1'', ''n3''] \<and>
   unreadCount (snd (dashboard_handleNotificationAction down_env ''n2''
       (Num 2) ''view_customer'' \<lparr>notifications = samples 3, unreadCount = 3\<rparr>)) = 2 \<and>
   notifications (snd (bell_handleToastDismiss down_env ''n9''
       \<lparr>notifications = samples 3, unreadCount = 3\<rparr>)) = samples 3 \<and>
   unreadCount (snd (bell_handleToastDismiss down_env ''n9''
       \<lparr>notifications = samples 3, unreadCount = 3\<rparr>)) = 2 \<and>
   dashboard_handleNotificationAction down_env ''n2'' NaN ''view_customer''
       \<lparr>notifications = samples 3, unreadCount = 3\<rparr>
     = ([], \<lparr>notifications = samples 3, unreadCount = 3\<rparr>)"
proof -
  let ?s = "\<lparr>notifications = samples 3, unreadCount = 3\<rparr>"
  have g: "''n2'' \<noteq> [] \<and> (0::int) < 2"
    by simp
  have c: "dashboard_handleNotificationAction down_env ''n2'' NaN ''view_customer'' ?s = ([], ?s)"
    using mark_read_paths [of "''n2''" ?s down_env "''view_customer''" NaN 2] by blast
  have held: "holds_id ?s ''n2''" "\<not> holds_id ?s ''n9''" "unique_ids ?s"
    by code_simp+
  have kept: "map notification_id (filter (\<lambda>n. notification_id n \<noteq> ''n2'') (notifications ?s))
      = [''n1'', ''n3'']"
    by code_simp
  have a: "mark_read_effect ''n2'' ?s
      (snd (dashboard_handleNotificationAction down_env ''n2'' (Num 2) ''view_customer'' ?s))"
    using mark_read_paths [of "''n2''" ?s down_env "''view_customer''" "Num 2" 2] g by blast
  have b: "mark_read_effect ''n9'' ?s (snd (bell_handleToastDismiss down_env ''n9'' ?s))"
    using mark_read_paths [of "''n9''" ?s down_env "''view_customer''" "Num 2" 2] by blast
  have a1: "notifications (snd (dashboard_handleNotificationAction down_env ''n2'' (Num 2)
        ''view_customer'' ?s)) = filter (\<lambda>n. notification_id n \<noteq> ''n2'') (notifications ?s)"
    using a by (rule mark_read_effect_list)
  have a2: "unreadCount (snd (dashboard_handleNotificationAction down_env ''n2'' (Num 2)
        ''view_customer'' ?s)) = max 0 (unreadCount ?s - 1)"
    using a by (rule mark_read_effect_count)
  have b1: "notifications (snd (bell_handleToastDismiss down_env ''n9'' ?s)) = notifications ?s"
    using b held(2) by (rule mark_read_effect_absent)
  have b2: "unreadCount (snd (bell_handleToastDismiss down_env ''n9'' ?s))
        = max 0 (unreadCount ?s - 1)"
    using b by (rule mark_read_effect_count)
  show ?thesis
    using kept by (simp add: a1 a2 b1 b2 c)
qed

text \<open>
  Counterexample to C3 as stated, on an absent id: the bell holds \<^verbatim>\<open>n1\<close> with counter 1, the
  toast action names \<^verbatim>\<open>zz\<close>, and the counter drops to 0.
\<close>

theorem mark_read_absent_counterexample:
  "\<not> holds_id \<lparr>notifications = samples 1, unreadCount = 1\<rparr> ''zz'' \<and>
   unreadCount (snd (bell_handleToastAction down_env ''view_customer'' (Num 7) ''zz''
       \<lparr>notifications = samples 1, unreadCount = 1\<rparr>)) = 0 \<and>
   unreadCount \<lparr>notifications = samples 1, unreadCount = 1\<rparr> = 1"
proof -
  have "\<not> holds_id \<lparr>notifications = samples 1, unreadCount = 1\<rparr> ''zz''"
    by code_simp
  then show ?thesis
    by (simp add: bell_handleToastAction_def)
qed

subsection \<open>Marking everything as read\<close>

lemma mark_read_not_absolute: "\<not> startsWith (mark_read_endpoint i) ''http''"
  by (simp add: startsWith_def mark_read_endpoint_def)

lemma authenticatedApiRequest_call:
  "fst (authenticatedApiRequest e endpoint options) =
     [\<lparr>url = (if startsWith endpoint ''http'' then endpoint else API_BASE_URL e @ endpoint),
       init = \<lparr>http_method = http_method options,
                headers = Some (PlainObject
                  ([''Content-Type'' \<mapsto> ''application/json''] ++ bearer (accessToken e)
                     ++ own_properties (headers options))),
                body = body options, signal = Some (timeout_ms options)\<rparr>\<rparr>]"
  by (simp add: authenticatedApiRequest_def authOptions_def apiRequest_call timeout_ms_def)

lemma Promise_all_resolves:
  "list_all (\<lambda>p. case p of Inl _ \<Rightarrow> False | Inr _ \<Rightarrow> True) ps \<Longrightarrow> \<exists>vs. Promise_all ps = Inr vs"
  by (induction ps rule: Promise_all.induct) auto

lemma Promise_all_rejects:
  "\<not> list_all (\<lambda>p. case p of Inl _ \<Rightarrow> False | Inr _ \<Rightarrow> True) ps \<Longrightarrow> \<exists>err. Promise_all ps = Inl err"
  by (induction ps rule: Promise_all.induct) (auto split: sum.splits)

lemma mark_all_calls:
  "fst (bell_handleMarkAllAsRead e s) =
     concat (map (\<lambda>n. fst (authenticatedApiRequest e (mark_read_endpoint (notification_id n))
                             (method_only ''POST''))) (notifications s))"
  by (simp add: bell_handleMarkAllAsRead_def Let_def comp_def)

lemma mark_all_urls:
  "map url (concat (map (\<lambda>n. fst (authenticatedApiRequest e
                                   (mark_read_endpoint (notification_id n))
                                   (method_only ''POST''))) l))
     = map (\<lambda>n. API_BASE_URL e @ mark_read_endpoint (notification_id n)) l"
  by (induction l) (simp_all add: authenticatedApiRequest_call mark_read_not_absolute)

lemma mark_all_methods:
  "list_all (\<lambda>c. http_method (init c) = Some ''POST'')
     (concat (map (\<lambda>n. fst (authenticatedApiRequest e (mark_read_endpoint (notification_id n))
                             (method_only ''POST''))) l))"
  by (induction l) (simp_all add: authenticatedApiRequest_call method_only_def)

lemma mark_all_state:
  "snd (bell_handleMarkAllAsRead e s) =
     (if list_all (mark_read_resolves e) (notifications s)
      then s\<lparr>notifications := [], unreadCount := 0\<rparr> else s)"
proof -
  let ?ps = "map (\<lambda>n. snd (authenticatedApiRequest e (mark_read_endpoint (notification_id n))
                             (method_only ''POST''))) (notifications s)"
  have all: "list_all (\<lambda>p. case p of Inl _ \<Rightarrow> False | Inr _ \<Rightarrow> True) ?ps
      = list_all (mark_read_resolves e) (notifications s)"
    by (simp add: list_all_iff mark_read_resolves_def)
  have state: "snd (bell_handleMarkAllAsRead e s)
      = (case Promise_all ?ps of Inl _ \<Rightarrow> s | Inr _ \<Rightarrow> s\<lparr>notifications := [], unreadCount := 0\<rparr>)"
    by (simp add: bell_handleMarkAllAsRead_def Let_def comp_def)
  show ?thesis
  proof (cases "list_all (mark_read_resolves e) (notifications s)")
    case True
    then obtain vs where "Promise_all ?ps = Inr vs"
      using Promise_all_resolves [of ?ps] all by auto
    then show ?thesis
      using True by (simp add: state)
  next
    case False
    then obtain err where "Promise_all ?ps = Inl err"
      using Promise_all_rejects [of ?ps] all by auto
    then show ?thesis
      using False by (simp add: state)
  qed
qed

text \<open>A mark-read request resolves exactly when its \<^verbatim>\<open>fetch\<close> resolves, whatever the status.\<close>

lemma mark_read_resolves_iff:
  "mark_read_resolves e n \<longleftrightarrow>
     (\<exists>r. fetch (net e)
            (hd (fst (authenticatedApiRequest e (mark_read_endpoint (notification_id n))
                        (method_only ''POST'')))) = Resolved r)"
  by (auto simp: mark_read_resolves_def authenticatedApiRequest_def apiRequest_def Let_def
        split: fetch_result.splits thrown.splits)

text \<open>
  C2 (as amended). For a bell that holds K notifications, mark-all-read sends exactly K
  requests, one \<^verbatim>\<open>POST\<close> to the mark-read address of each held notification. When every
  request resolves with a response, of whatever status, the list is cleared and
  \<^verbatim>\<open>unreadCount\<close> is set to 0; when a request is rejected (the transport fails or the
  timeout strikes), the list and \<^verbatim>\<open>unreadCount\<close> stay as they were.
\<close>

theorem mark_all_read_effect:
  "length (fst (bell_handleMarkAllAsRead e s)) = length (notifications s) \<and>
   map url (fst (bell_handleMarkAllAsRead e s))
     = map (\<lambda>n. API_BASE_URL e @ ''/customer-notifications/'' @ notification_id n @ ''/mark-read'')
         (notifications s) \<and>
   list_all (\<lambda>c. http_method (init c) = Some ''POST'') (fst (bell_handleMarkAllAsRead e s)) \<and>
   (list_all (mark_read_resolves e) (notifications s) \<longrightarrow>
      snd (bell_handleMarkAllAsRead e s) = s\<lparr>notifications := [], unreadCount := 0\<rparr>) \<and>
   (\<not> list_all (mark_read_resolves e) (notifications s) \<longrightarrow>
      snd (bell_handleMarkAllAsRead e s) = s)"
proof -
  have urls: "map url (fst (bell_handleMarkAllAsRead e s))
      = map (\<lambda>n. API_BASE_URL e @ ''/customer-notifications/'' @ notification_id n @ ''/mark-read'')
          (notifications s)"
    unfolding mark_all_calls mark_all_urls by (simp add: mark_read_endpoint_def)
  have "length (map url (fst (bell_handleMarkAllAsRead e s))) = length (notifications s)"
    by (simp only: urls length_map)
  then have len: "length (fst (bell_handleMarkAllAsRead e s)) = length (notifications s)"
    by simp
  have post: "list_all (\<lambda>c. http_method (init c) = Some ''POST'')
      (fst (bell_handleMarkAllAsRead e s))"
    by (simp only: mark_all_calls mark_all_methods)
  show ?thesis
    using urls len post by (simp add: mark_all_state)
qed

text \<open>
  Two held notifications; a backend that answers 500 to both requests, and a transport
  on which both fail.
\<close>

theorem mark_all_read_effect_witness:
  "length (fst (bell_handleMarkAllAsRead failing_env \<lparr>notifications = samples 2, unreadCount = 2\<rparr>))
     = 2 \<and>
   snd (bell_handleMarkAllAsRead failing_env \<lparr>notifications = samples 2, unreadCount = 2\<rparr>)
     = \<lparr>notifications = [], unreadCount = 0\<rparr> \<and>
   snd (bell_handleMarkAllAsRead down_env \<lparr>notifications = samples 2, unreadCount = 2\<rparr>)
     = \<lparr>notifications = samples 2, unreadCount = 2\<rparr>"
proof -
  let ?s = "\<lparr>notifications = samples 2, unreadCount = 2\<rparr>"
  have len: "length (notifications ?s) = 2"
    by (simp add: samples_def)
  have yes: "list_all (mark_read_resolves failing_env) (notifications ?s)"
    by code_simp
  have no: "\<not> list_all (mark_read_resolves down_env) (notifications ?s)"
    by code_simp
  show ?thesis
    using mark_all_read_effect [of failing_env ?s] mark_all_read_effect [of down_env ?s]
      len yes no
    by simp
qed

text \<open>
  Counterexample to C2 as stated, with rejected requests: with two held notifications and
  a transport on which every request fails, two requests are sent and nothing is cleared.
\<close>

theorem mark_all_read_counterexample:
  "length (fst (bell_handleMarkAllAsRead down_env \<lparr>notifications = samples 2, unreadCount = 2\<rparr>))
     = 2 \<and>
   length (notifications
     (snd (bell_handleMarkAllAsRead down_env \<lparr>notifications = samples 2, unreadCount = 2\<rparr>))) = 2 \<and>
   unreadCount
     (snd (bell_handleMarkAllAsRead down_env \<lparr>notifications = samples 2, unreadCount = 2\<rparr>)) = 2"
  by code_simp

subsection \<open>The counter\<close>

lemma dashboard_step_nonneg:
  "0 \<le> unreadCount s \<Longrightarrow> 0 \<le> unreadCount (dashboard_step as_data s ev)"
  by (cases ev)
    (auto simp: dashboard_loadNotifications_def dashboard_handleNewNotification_def
       dashboard_handleNotificationAction_def Let_def
       split: fetch_result.splits sum.splits option.splits)

lemma bell_step_nonneg:
  "0 \<le> unreadCount s \<Longrightarrow> 0 \<le> unreadCount (bell_step as_data s ev)"
  by (cases ev)
    (auto simp: bell_loadNotifications_def bell_handleNewNotification_def
       bell_handleNotificationRead_def bell_handleToastAction_def bell_handleToastDismiss_def
       mark_all_state Let_def
       split: sum.splits option.splits)

lemma dashboard_steps_nonneg:
  "0 \<le> unreadCount s \<Longrightarrow> 0 \<le> unreadCount (foldl (dashboard_step as_data) s evs)"
  by (induction evs arbitrary: s) (simp_all add: dashboard_step_nonneg)

lemma bell_steps_nonneg:
  "0 \<le> unreadCount s \<Longrightarrow> 0 \<le> unreadCount (foldl (bell_step as_data) s evs)"
  by (induction evs arbitrary: s) (simp_all add: bell_step_nonneg)

text \<open>
  C7. After every sequence of snapshot loads, push events and mark-read actions on a
  freshly mounted surface, \<^verbatim>\<open>unreadCount\<close> is at least 0.
\<close>

theorem unreadCount_never_negative:
  "0 \<le> unreadCount (dashboard_run as_data devs) \<and> 0 \<le> unreadCount (bell_run as_data bevs)"
  by (simp add: dashboard_run_def bell_run_def initial_store_def dashboard_steps_nonneg
        bell_steps_nonneg)

text \<open>One arrival followed by three mark-read actions, on each surface.\<close>

theorem unreadCount_never_negative_witness:
  "0 \<le> unreadCount (dashboard_run as_active_data
          [DashboardNewNotification (sample 1),
           DashboardAction down_env ''n1'' (Num 1) ''view_customer'',
           DashboardAction down_env ''n1'' (Num 1) ''view_customer'',
           DashboardAction down_env ''n1'' (Num 1) ''start_transaction'']) \<and>
   0 \<le> unreadCount (bell_run as_active_data
          [BellNewNotification (sample 1), BellNotificationRead ''n1'',
           BellToastDismiss down_env ''n1'', BellToastAction down_env ''view_customer'' (Num 1) ''n1''])"
  using unreadCount_never_negative
    [of as_active_data
      "[DashboardNewNotification (sample 1),
        DashboardAction down_env ''n1'' (Num 1) ''view_customer'',
        DashboardAction down_env ''n1'' (Num 1) ''view_customer'',
        DashboardAction down_env ''n1'' (Num 1) ''start_transaction'']"
      "[BellNewNotification (sample 1), BellNotificationRead ''n1'',
        BellToastDismiss down_env ''n1'', BellToastAction down_env ''view_customer'' (Num 1) ''n1'']"]
  by simp

subsection \<open>Loading the snapshot\<close>

lemma dashboard_snapshot:
  assumes "fetch (net e) (hd (fst (dashboard_loadNotifications as_data e s))) = Resolved r"
    and "ok r" and "json r = Inr j"
    and "data_success (as_data j)" and "data_notifications (as_data j) = Some ns"
  shows "snd (dashboard_loadNotifications as_data e s)
           = s\<lparr>notifications := take 10 ns, unreadCount := int (length ns)\<rparr>"
  using assms by (simp add: dashboard_loadNotifications_def Let_def)

lemma bell_snapshot:
  assumes "fetch (net e) (hd (fst (bell_loadNotifications as_data e s))) = Resolved r"
    and "ok r" and "json r = Inr j"
    and "data_success (as_data j)" and "data_notifications (as_data j) = Some ns"
  shows "snd (bell_loadNotifications as_data e s)
           = s\<lparr>notifications := ns, unreadCount := int (length ns)\<rparr>"
  using assms
  by (simp add: bell_loadNotifications_def Let_def authenticatedApiRequest_def apiRequest_def
        parseApiResponse_def)

text \<open>The scenario of the dashboard: 15 notifications arrive, 10 are held, the counter is 15.\<close>

lemma dashboard_snapshot_15:
  "notifications (snd (dashboard_loadNotifications as_active_data (snapshot_env 15) initial_store))
     = samples 10 \<and>
   unreadCount (snd (dashboard_loadNotifications as_active_data (snapshot_env 15) initial_store))
     = 15"
  by code_simp

text \<open>
  C1. The dashboard keeps the first 10 notifications of a successful snapshot; the bell
  keeps the whole list. A snapshot of 21 notifications leaves the bell holding all 21 of
  them, one more than its capacity of 20, with the counter at 21.
\<close>

theorem bell_snapshot_exceeds_capacity:
  "notifications (snd (bell_loadNotifications as_active_data (snapshot_env 21) initial_store))
     = samples 21 \<and>
   length (notifications
     (snd (bell_loadNotifications as_active_data (snapshot_env 21) initial_store))) = 21 \<and>
   unreadCount (snd (bell_loadNotifications as_active_data (snapshot_env 21) initial_store)) = 21"
proof -
  let ?r = "\<lparr>ok = True, status = 200, statusText = ''OK'', json = Inr (snapshot_json 21)\<rparr>"
  have reply: "fetch (net (snapshot_env 21))
      (hd (fst (bell_loadNotifications as_active_data (snapshot_env 21) initial_store)))
      = Resolved ?r"
    by (simp add: bell_loadNotifications_def Let_def authenticatedApiRequest_call fetch_def
          snapshot_env_def method_only_def timeout_ms_def)
  have success: "data_success (as_active_data (snapshot_json 21))"
    by code_simp
  have list: "data_notifications (as_active_data (snapshot_json 21)) = Some (samples 21)"
    by code_simp
  have len: "length (samples 21) = 21"
    by (simp add: samples_def)
  have "snd (bell_loadNotifications as_active_data (snapshot_env 21) initial_store)
      = initial_store\<lparr>notifications := samples 21, unreadCount := int (length (samples 21))\<rparr>"
    using reply _ _ success list by (rule bell_snapshot) simp_all
  then show ?thesis
    by (simp add: len)
qed

end
